theory Spec2Isabelle
  imports Main "HOL-Library.Sublist"
begin

section \<open>The PDF question-answering service of pdf\_chat\_api.py\<close>

text \<open>
  The module is glue around four libraries: PyPDF2 (text extraction), LangChain's
  \<^verbatim>\<open>RecursiveCharacterTextSplitter\<close> (chunking), Chroma with a HuggingFace embedding
  (index and retrieval) and a Gemini chat model (generation), behind two FastAPI routes.
  The embedding follows the module function by function. What a library computes from
  data the module never sees (the text of a page, an embedding vector, the nearest
  neighbours, the model's answer) is a parameter of the model; what a library does with
  the data the module hands it (how the splitter cuts, that Chroma adds to the collection
  it opens, how FastAPI turns a return value or an \<^verbatim>\<open>HTTPException\<close> into a response) is
  written out, since the module's behaviour is exactly that.

  Strings are \<^typ>\<open>string\<close>; a character stands for a code point below 256.
\<close>

subsection \<open>Text chunking: \<^verbatim>\<open>get_text_chunks\<close>\<close>

text \<open>
  \<^verbatim>\<open>
  def get_text_chunks(text: str):
      text_splitter = RecursiveCharacterTextSplitter(chunk_size=10000, chunk_overlap=1000)
      return text_splitter.split_text(text)
  \<close>
  The splitter is constructed with its defaults: separators
  \<^verbatim>\<open>["\n\n", "\n", " ", ""]\<close>, \<^verbatim>\<open>keep_separator=True\<close>, \<^verbatim>\<open>is_separator_regex=False\<close>,
  \<^verbatim>\<open>length_function=len\<close>, \<^verbatim>\<open>strip_whitespace=True\<close>. In the definitions below \<open>C\<close> is
  \<^verbatim>\<open>chunk_size\<close> and \<open>V\<close> is \<^verbatim>\<open>chunk_overlap\<close>.
\<close>

definition NL :: char where
  "NL = CHR 0x0A"

text \<open>\<^verbatim>\<open>str.isspace\<close> on the code points below 256, as \<^verbatim>\<open>str.strip()\<close> uses it.\<close>

definition is_space :: "char \<Rightarrow> bool" where
  "is_space c =
     (let n = (of_char c :: nat)
      in (9 \<le> n \<and> n \<le> 13) \<or> (28 \<le> n \<and> n \<le> 32) \<or> n = 133 \<or> n = 160)"

definition strip :: "string \<Rightarrow> string" where
  "strip s = rev (dropWhile is_space (rev (dropWhile is_space s)))"

text \<open>\<^verbatim>\<open>re.search(re.escape(sep), text)\<close>: the separator occurs in the text.\<close>

fun contains :: "string \<Rightarrow> string \<Rightarrow> bool" where
  "contains sep [] = (sep = [])"
| "contains sep (c # cs) = (prefix sep (c # cs) \<or> contains sep cs)"

text \<open>
  \<^verbatim>\<open>re.split\<close> on a literal, non-empty separator: the pieces between its leftmost,
  non-overlapping occurrences (\<open>piece\<close> collects the piece being read).
\<close>

fun re_split :: "string \<Rightarrow> string \<Rightarrow> string \<Rightarrow> string list" where
  "re_split sep piece [] = [piece]"
| "re_split sep piece (c # cs) =
     (if sep \<noteq> [] \<and> prefix sep (c # cs)
      then piece # re_split sep [] (drop (length sep - 1) cs)
      else re_split sep (piece @ [c]) cs)"

text \<open>
  \<^verbatim>\<open>
  def _split_text_with_regex(text, separator, keep_separator):
      if separator:
          if keep_separator:
              _splits = re.split(f"({separator})", text)
              splits = [_splits[i] + _splits[i + 1] for i in range(1, len(_splits), 2)]
              if len(_splits) % 2 == 0:
                  splits += _splits[-1:]
              splits = [_splits[0]] + splits
          else: ...
      else:
          splits = list(text)
      return [s for s in splits if s != ""]
  \<close>
  With the capturing group \<^verbatim>\<open>_splits\<close> is piece, separator, piece, ..., piece (an odd
  number of entries), so \<^verbatim>\<open>splits\<close> is the first piece followed by every later piece
  with the separator in front of it.
\<close>

definition split_text_with_regex :: "string \<Rightarrow> string \<Rightarrow> string list" where
  "split_text_with_regex text separator =
     (let splits =
        (if separator \<noteq> [] then
           (case re_split separator [] text of
              [] \<Rightarrow> []
            | p # ps \<Rightarrow> p # map (\<lambda>q. separator @ q) ps)
         else map (\<lambda>c. [c]) text)
      in filter (\<lambda>s. s \<noteq> []) splits)"

text \<open>\<^verbatim>\<open>separator.join(docs)\<close>\<close>

fun join :: "string \<Rightarrow> string list \<Rightarrow> string" where
  "join sep [] = []"
| "join sep [d] = d"
| "join sep (d # ds) = d @ sep @ join sep ds"

text \<open>
  \<^verbatim>\<open>
  def _join_docs(self, docs, separator):
      text = separator.join(docs)
      if self._strip_whitespace:
          text = text.strip()
      if text == "":
          return None
      else:
          return text
  \<close>
\<close>

definition join_docs :: "string list \<Rightarrow> string \<Rightarrow> string option" where
  "join_docs docs separator =
     (let text = strip (join separator docs) in if text = [] then None else Some text)"

text \<open>
  \<^verbatim>\<open>
  def _merge_splits(self, splits, separator):
      separator_len = self._length_function(separator)
      docs = []
      current_doc = []
      total = 0
      for d in splits:
          _len = self._length_function(d)
          if total + _len + (separator_len if len(current_doc) > 0 else 0) > self._chunk_size:
              if total > self._chunk_size:
                  logger.warning(...)
              if len(current_doc) > 0:
                  doc = self._join_docs(current_doc, separator)
                  if doc is not None:
                      docs.append(doc)
                  while total > self._chunk_overlap or (
                      total + _len + (separator_len if len(current_doc) > 0 else 0)
                      > self._chunk_size and total > 0):
                      total -= self._length_function(current_doc[0]) + (
                          separator_len if len(current_doc) > 1 else 0)
                      current_doc = current_doc[1:]
          current_doc.append(d)
          total += _len + (separator_len if len(current_doc) > 1 else 0)
      doc = self._join_docs(current_doc, separator)
      if doc is not None:
          docs.append(doc)
      return docs
  \<close>
  \<open>pop_docs\<close> is the \<^verbatim>\<open>while\<close> loop. Its first equation is the loop's exit on an empty
  \<^verbatim>\<open>current_doc\<close>: \<^verbatim>\<open>total\<close> is the joined length of \<^verbatim>\<open>current_doc\<close> (lemma
  \<open>merge_step_total\<close> below), hence 0 there, and the condition is false.
\<close>

fun pop_docs :: "nat \<Rightarrow> nat \<Rightarrow> int \<Rightarrow> int \<Rightarrow> string list \<Rightarrow> int \<Rightarrow> string list \<times> int" where
  "pop_docs C V seplen len [] tot = ([], tot)"
| "pop_docs C V seplen len (d # ds) tot =
     (if tot > int V \<or> (tot + len + seplen > int C \<and> tot > 0)
      then pop_docs C V seplen len ds
             (tot - (int (length d) + (if ds \<noteq> [] then seplen else 0)))
      else (d # ds, tot))"

definition flush_doc :: "string list \<Rightarrow> string list \<Rightarrow> string \<Rightarrow> string list" where
  "flush_doc docs cur sep =
     (case join_docs cur sep of None \<Rightarrow> docs | Some doc \<Rightarrow> docs @ [doc])"

text \<open>One pass of the \<^verbatim>\<open>for\<close> loop, on the state (\<^verbatim>\<open>docs\<close>, \<^verbatim>\<open>current_doc\<close>, \<^verbatim>\<open>total\<close>).\<close>

definition merge_step ::
  "nat \<Rightarrow> nat \<Rightarrow> string \<Rightarrow> string list \<times> string list \<times> int \<Rightarrow> string
     \<Rightarrow> string list \<times> string list \<times> int" where
  "merge_step C V sep st d =
     (case st of (docs, cur, tot) \<Rightarrow>
      let len = int (length d); seplen = int (length sep);
          st' = (if tot + len + (if cur \<noteq> [] then seplen else 0) > int C \<and> cur \<noteq> []
                 then (flush_doc docs cur sep, pop_docs C V seplen len cur tot)
                 else (docs, cur, tot));
          cur' = fst (snd st') @ [d]
      in (fst st', cur', snd (snd st') + len + (if length cur' > 1 then seplen else 0)))"

fun merge_loop ::
  "nat \<Rightarrow> nat \<Rightarrow> string \<Rightarrow> string list \<times> string list \<times> int \<Rightarrow> string list
     \<Rightarrow> string list" where
  "merge_loop C V sep st [] = flush_doc (fst st) (fst (snd st)) sep"
| "merge_loop C V sep st (d # ds) = merge_loop C V sep (merge_step C V sep st d) ds"

definition merge_splits :: "nat \<Rightarrow> nat \<Rightarrow> string list \<Rightarrow> string \<Rightarrow> string list" where
  "merge_splits C V splits separator = merge_loop C V separator ([], [], 0) splits"

text \<open>
  \<^verbatim>\<open>
  def _split_text(self, text, separators):
      final_chunks = []
      separator = separators[-1]
      new_separators = []
      for i, _s in enumerate(separators):
          _separator = _s if self._is_separator_regex else re.escape(_s)
          if _s == "":
              separator = _s
              break
          if re.search(_separator, text):
              separator = _s
              new_separators = separators[i + 1 :]
              break
      _separator = separator if self._is_separator_regex else re.escape(separator)
      splits = _split_text_with_regex(text, _separator, self._keep_separator)
      _good_splits = []
      _separator = "" if self._keep_separator else separator
      for s in splits:
          if self._length_function(s) < self._chunk_size:
              _good_splits.append(s)
          else:
              if _good_splits:
                  merged_text = self._merge_splits(_good_splits, _separator)
                  final_chunks.extend(merged_text)
                  _good_splits = []
              if not new_separators:
                  final_chunks.append(s)
              else:
                  other_info = self._split_text(s, new_separators)
                  final_chunks.extend(other_info)
      if _good_splits:
          merged_text = self._merge_splits(_good_splits, _separator)
          final_chunks.extend(merged_text)
      return final_chunks

  def split_text(self, text):
      return self._split_text(text, self._separators)
  \<close>
  \<open>scan_separators\<close> is the first loop (\<open>None\<close> when it ends without \<^verbatim>\<open>break\<close>),
  \<open>split_loop\<close> the second, with \<open>long\<close> what is done with a split that is not
  shorter than the chunk size.
\<close>

fun scan_separators :: "string \<Rightarrow> string list \<Rightarrow> (string \<times> string list) option" where
  "scan_separators text [] = None"
| "scan_separators text (s # ss) =
     (if s = [] then Some ([], [])
      else if contains s text then Some (s, ss)
      else scan_separators text ss)"

definition choose_separator :: "string \<Rightarrow> string list \<Rightarrow> string \<times> string list" where
  "choose_separator text separators =
     (case scan_separators text separators of
        None \<Rightarrow> (last separators, [])
      | Some r \<Rightarrow> r)"

fun split_loop ::
  "nat \<Rightarrow> nat \<Rightarrow> (string \<Rightarrow> string list) \<Rightarrow> string list \<Rightarrow> string list \<Rightarrow> string list" where
  "split_loop C V long good [] = (if good \<noteq> [] then merge_splits C V good [] else [])"
| "split_loop C V long good (s # ss) =
     (if length s < C then split_loop C V long (good @ [s]) ss
      else (if good \<noteq> [] then merge_splits C V good [] else [])
           @ long s @ split_loop C V long [] ss)"

lemma scan_separators_shorter:
  "scan_separators text separators = Some (s, rest) \<Longrightarrow> length rest < length separators"
  by (induction separators) (auto split: if_splits)

lemma choose_separator_shorter:
  "snd (choose_separator text separators) \<noteq> [] \<Longrightarrow>
   length (snd (choose_separator text separators)) < length separators"
  by (auto simp: choose_separator_def split: option.splits dest: scan_separators_shorter)

function split_text_rec :: "nat \<Rightarrow> nat \<Rightarrow> string \<Rightarrow> string list \<Rightarrow> string list" where
  "split_text_rec C V text separators =
     (let separator = fst (choose_separator text separators);
          splits = split_text_with_regex text separator
      in split_loop C V
           (\<lambda>s. if snd (choose_separator text separators) = [] then [s]
                else split_text_rec C V s (snd (choose_separator text separators)))
           [] splits)"
  by pat_completeness auto
termination
  by (relation "measure (\<lambda>(C, V, text, separators). length separators)")
     (auto dest: choose_separator_shorter)

declare split_text_rec.simps [simp del]

definition default_separators :: "string list" where
  "default_separators = [[NL, NL], [NL], '' '', []]"

definition split_text :: "nat \<Rightarrow> nat \<Rightarrow> string \<Rightarrow> string list" where
  "split_text C V text = split_text_rec C V text default_separators"

definition get_text_chunks :: "string \<Rightarrow> string list" where
  "get_text_chunks text = split_text 10000 1000 text"

subsection \<open>Exceptions, JSON values and responses\<close>

text \<open>
  An exception of class \<^verbatim>\<open>Exception\<close> (what \<^verbatim>\<open>except Exception\<close> catches), with the
  text that \<^verbatim>\<open>str(e)\<close> gives for it. \<open>Exception\<close> stands for every class the module
  does not name.
\<close>

datatype exn = ValueError string | KeyError string | Exception string

fun str :: "exn \<Rightarrow> string" where
  "str (ValueError m) = m"
| "str (KeyError k) = [CHR 0x27] @ k @ [CHR 0x27]"
| "str (Exception m) = m"

datatype json = JStr string | JList "json list" | JDict "(string \<times> json) list"

record response =
  status_code :: nat
  content :: json

text \<open>
  A path operation function either returns a value or raises
  \<^verbatim>\<open>HTTPException(status_code, detail)\<close>. FastAPI answers a returned value with status 200
  and the value as JSON body, and an \<^verbatim>\<open>HTTPException\<close> with its status code and the body
  \<^verbatim>\<open>{"detail": detail}\<close>.
\<close>

datatype outcome = Return json | HTTPException nat string

fun serialize_response :: "outcome \<Rightarrow> response" where
  "serialize_response (Return v) = \<lparr>status_code = 200, content = v\<rparr>"
| "serialize_response (HTTPException s d) =
     \<lparr>status_code = s, content = JDict [(''detail'', JStr d)]\<rparr>"

text \<open>
  \<^verbatim>\<open>
  @app.get("/")
  async def read_root():
      return {"message": "Welcome to the Ask Docs API!"}
  \<close>
\<close>

definition read_root :: outcome where
  "read_root = Return (JDict [(''message'', JStr ''Welcome to the Ask Docs API!'')])"

subsection \<open>Module initialisation\<close>

text \<open>
  \<^verbatim>\<open>
  load_dotenv()
  GOOGLE_API_KEY = os.getenv("GOOGLE_API_KEY")
  if not GOOGLE_API_KEY:
      raise ValueError("GOOGLE_API_KEY not found in environment variables")
  app = FastAPI(...)
  try:
      genai.configure(api_key=GOOGLE_API_KEY)
  except Exception as e:
      raise Exception(f"Error configuring Google API: {str(e)}")
  embed_model = HuggingFaceEmbeddings(...)
  \<close>
  The environment is a map from names to values. \<^verbatim>\<open>load_dotenv()\<close> adds the variables of
  the \<^verbatim>\<open>.env\<close> file (\<open>dotenv\<close>, empty when there is no file) that the environment does
  not have yet. \<^verbatim>\<open>not x\<close> holds of \<^verbatim>\<open>None\<close> and of the empty string. What
  \<^verbatim>\<open>genai.configure\<close> and the loading of the embedding model do is a parameter. The
  routes exist once the module has been executed to its end.
\<close>

type_synonym environ = "string \<rightharpoonup> string"

definition load_dotenv :: "environ \<Rightarrow> environ \<Rightarrow> environ" where
  "load_dotenv dotenv env = dotenv ++ env"

definition getenv :: "environ \<Rightarrow> string \<Rightarrow> string option" where
  "getenv env name = env name"

fun falsy :: "string option \<Rightarrow> bool" where
  "falsy None = True"
| "falsy (Some s) = (s = [])"

record app =
  title :: string
  version :: string
  routes :: "(string \<times> string) list"

definition after_credential_check ::
  "(string \<Rightarrow> exn + unit) \<Rightarrow> exn + 'm \<Rightarrow> string \<Rightarrow> exn + app" where
  "after_credential_check configure load_model key =
     (case configure key of
        Inl e \<Rightarrow> Inl (Exception (''Error configuring Google API: '' @ str e))
      | Inr _ \<Rightarrow>
          (case load_model of
             Inl e \<Rightarrow> Inl e
           | Inr _ \<Rightarrow>
               Inr \<lparr>title = '' CHATBOT SYSTEM'', version = ''1.0.0'',
                    routes = [(''GET'', ''/''), (''POST'', ''/ask_question/'')]\<rparr>))"

definition module_init ::
  "(string \<Rightarrow> exn + unit) \<Rightarrow> exn + 'm \<Rightarrow> environ \<Rightarrow> environ \<Rightarrow> exn + app" where
  "module_init configure load_model dotenv env =
     (let GOOGLE_API_KEY = getenv (load_dotenv dotenv env) ''GOOGLE_API_KEY''
      in if falsy GOOGLE_API_KEY
         then Inl (ValueError ''GOOGLE_API_KEY not found in environment variables'')
         else (case GOOGLE_API_KEY of
                 None \<Rightarrow> Inl (ValueError ''GOOGLE_API_KEY not found in environment variables'')
               | Some key \<Rightarrow> after_credential_check configure load_model key))"

text \<open>The endpoints a client can reach: those of the application, when there is one.\<close>

fun endpoints :: "exn + app \<Rightarrow> (string \<times> string) list" where
  "endpoints (Inl e) = []"
| "endpoints (Inr a) = routes a"

subsection \<open>The request pipeline\<close>

text \<open>
  What the libraries compute: \<open>pdf_reader\<close> is \<^verbatim>\<open>PdfReader(pdf.file).pages\<close>,
  \<open>extract_text\<close> is \<^verbatim>\<open>page.extract_text()\<close>, \<open>embed\<close> is the embedding model on one
  text, \<open>refused\<close> is the exception with which the Chroma client refuses a batch of
  records before it writes any of them (recent releases refuse an empty batch),
  \<open>similarity_search\<close> is the search of the opened collection for a question
  (the page contents of the documents it returns), \<open>chain\<close> is the question-answering
  chain, returning the output dictionary. Each can raise.
\<close>

record ('f, 'p, 'v) services =
  pdf_reader :: "'f \<Rightarrow> exn + 'p list"
  extract_text :: "'p \<Rightarrow> exn + string"
  embed :: "string \<Rightarrow> exn + 'v"
  refused :: "(string \<times> 'v) list \<Rightarrow> exn option"
  similarity_search :: "(string \<times> 'v) list \<Rightarrow> string \<Rightarrow> exn + string list"
  chain :: "string list \<Rightarrow> string \<Rightarrow> exn + (string \<times> string) list"

text \<open>
  \<^verbatim>\<open>
  def get_pdf_text(pdf_docs: List[UploadFile]):
      text = ""
      for pdf in pdf_docs:
          pdf_reader = PdfReader(pdf.file)
          for page in pdf_reader.pages:
              text += page.extract_text()
      return text
  \<close>
\<close>

fun pages_loop :: "('p \<Rightarrow> exn + string) \<Rightarrow> string \<Rightarrow> 'p list \<Rightarrow> exn + string" where
  "pages_loop ex text [] = Inr text"
| "pages_loop ex text (page # pages) =
     (case ex page of
        Inl e \<Rightarrow> Inl e
      | Inr t \<Rightarrow> pages_loop ex (text @ t) pages)"

fun docs_loop ::
  "('f \<Rightarrow> exn + 'p list) \<Rightarrow> ('p \<Rightarrow> exn + string) \<Rightarrow> string \<Rightarrow> 'f list \<Rightarrow> exn + string" where
  "docs_loop rd ex text [] = Inr text"
| "docs_loop rd ex text (pdf # pdfs) =
     (case rd pdf of
        Inl e \<Rightarrow> Inl e
      | Inr pages \<Rightarrow>
          (case pages_loop ex text pages of
             Inl e \<Rightarrow> Inl e
           | Inr text' \<Rightarrow> docs_loop rd ex text' pdfs))"

definition get_pdf_text :: "('f, 'p, 'v) services \<Rightarrow> 'f list \<Rightarrow> exn + string" where
  "get_pdf_text sv pdf_docs = docs_loop (pdf_reader sv) (extract_text sv) [] pdf_docs"

text \<open>
  \<^verbatim>\<open>
  def get_vector_store(text_chunks: List[str]):
      vector_store = Chroma.from_texts(texts=text_chunks, embedding=embed_model,
                                       persist_directory="chroma_db")
      vector_store.persist()
      return vector_store
  \<close>
  The state is the content of the collection persisted at \<^verbatim>\<open>chroma_db\<close>: its (text, vector)
  pairs, in the order they were added. \<^verbatim>\<open>Chroma.from_texts\<close> opens the collection of the
  directory (\<^verbatim>\<open>get_or_create_collection\<close> under the default collection name), embeds the
  texts and, unless the client refuses the batch, adds one record per text under a fresh
  UUID; the module never removes the directory or the collection.
\<close>

type_synonym 'v store = "(string \<times> 'v) list"

fun embed_documents :: "(string \<Rightarrow> exn + 'v) \<Rightarrow> string list \<Rightarrow> exn + 'v list" where
  "embed_documents em [] = Inr []"
| "embed_documents em (t # ts) =
     (case em t of
        Inl e \<Rightarrow> Inl e
      | Inr v \<Rightarrow>
          (case embed_documents em ts of
             Inl e \<Rightarrow> Inl e
           | Inr vs \<Rightarrow> Inr (v # vs)))"

definition get_vector_store ::
  "('f, 'p, 'v) services \<Rightarrow> 'v store \<Rightarrow> string list \<Rightarrow> exn + 'v store" where
  "get_vector_store sv st text_chunks =
     (case embed_documents (embed sv) text_chunks of
        Inl e \<Rightarrow> Inl e
      | Inr vectors \<Rightarrow>
          (case refused sv (zip text_chunks vectors) of
             Some e \<Rightarrow> Inl e
           | None \<Rightarrow> Inr (st @ zip text_chunks vectors)))"

text \<open>
  \<^verbatim>\<open>
  @app.post("/ask_question/")
  async def ask_question(user_question: str = Form(...),
                         pdf_files: List[UploadFile] = File(...)):
      try:
          raw_text = get_pdf_text(pdf_files)
          text_chunks = get_text_chunks(raw_text)
          get_vector_store(text_chunks)
          vector_store = Chroma(persist_directory="chroma_db", embedding_function=embed_model)
          docs = vector_store.similarity_search(user_question)
          chain = get_conversational_chain()
          response = chain({"input_documents": docs, "question": user_question},
                           return_only_outputs=True)
          return {"answer": response["output_text"]}
      except Exception as e:
          raise HTTPException(status_code=400, detail=f"Error processing question: {str(e)}")
  \<close>
  \<open>ask_question_body\<close> is the body of the \<^verbatim>\<open>try\<close>: the exception it raises or the value
  it returns, with the store it leaves. The \<^verbatim>\<open>except\<close> clause touches no store.
\<close>

definition ask_question_body ::
  "('f, 'p, 'v) services \<Rightarrow> 'v store \<Rightarrow> string \<Rightarrow> 'f list \<Rightarrow> (exn + json) \<times> 'v store" where
  "ask_question_body sv st user_question pdf_files =
     (case get_pdf_text sv pdf_files of
        Inl e \<Rightarrow> (Inl e, st)
      | Inr raw_text \<Rightarrow>
          (case get_vector_store sv st (get_text_chunks raw_text) of
             Inl e \<Rightarrow> (Inl e, st)
           | Inr st' \<Rightarrow>
               (case similarity_search sv st' user_question of
                  Inl e \<Rightarrow> (Inl e, st')
                | Inr docs \<Rightarrow>
                    (case chain sv docs user_question of
                       Inl e \<Rightarrow> (Inl e, st')
                     | Inr response \<Rightarrow>
                         (case map_of response ''output_text'' of
                            None \<Rightarrow> (Inl (KeyError ''output_text''), st')
                          | Some text \<Rightarrow> (Inr (JDict [(''answer'', JStr text)]), st'))))))"

definition ask_question ::
  "('f, 'p, 'v) services \<Rightarrow> 'v store \<Rightarrow> string \<Rightarrow> 'f list \<Rightarrow> outcome \<times> 'v store" where
  "ask_question sv st user_question pdf_files =
     (case ask_question_body sv st user_question pdf_files of
        (Inl e, st') \<Rightarrow> (HTTPException 400 (''Error processing question: '' @ str e), st')
      | (Inr v, st') \<Rightarrow> (Return v, st'))"

text \<open>
  The route: FastAPI binds the parameters from the multipart form before it calls the
  function. \<^verbatim>\<open>Form(...)\<close> and \<^verbatim>\<open>File(...)\<close> declare both parameters required; when a
  required parameter is missing FastAPI does not call the function and answers
  \<^verbatim>\<open>422 Unprocessable Entity\<close> with \<^verbatim>\<open>{"detail": [...]}\<close>, one entry per missing parameter
  (of an entry only its location \<^verbatim>\<open>loc\<close> is kept here). A form is its text fields and its
  file parts, each with its name; a scalar field takes the last value sent under its
  name, a list of files every part sent under its name.
\<close>

record 'f form =
  text_parts :: "(string \<times> string) list"
  file_parts :: "(string \<times> 'f) list"

definition missing_error :: "string \<Rightarrow> json" where
  "missing_error name = JDict [(''loc'', JList [JStr ''body'', JStr name])]"

definition post_ask_question ::
  "('f, 'p, 'v) services \<Rightarrow> 'v store \<Rightarrow> 'f form \<Rightarrow> response \<times> 'v store" where
  "post_ask_question sv st form =
     (let pdf_files = map snd (filter (\<lambda>part. fst part = ''pdf_files'') (file_parts form)) in
      case map_of (rev (text_parts form)) ''user_question'' of
        None \<Rightarrow>
          (\<lparr>status_code = 422,
            content = JDict [(''detail'', JList (missing_error ''user_question'' #
                       (if pdf_files = [] then [missing_error ''pdf_files''] else [])))]\<rparr>, st)
      | Some user_question \<Rightarrow>
          if pdf_files = []
          then (\<lparr>status_code = 422,
                 content = JDict [(''detail'', JList [missing_error ''pdf_files''])]\<rparr>, st)
          else (case ask_question sv st user_question pdf_files of
                  (out, st') \<Rightarrow> (serialize_response out, st')))"

definition get_root :: response where
  "get_root = serialize_response read_root"

subsection \<open>The chunking of the specification\<close>

text \<open>
  The specification's chunker, written from its words: windows of the chunk length \<open>C\<close>
  whose starts are \<open>C - V\<close> apart, so that neighbours share \<open>V\<close> characters, up to a last
  window that takes what is left. It is what \<open>get_text_chunks\<close> is compared with.
\<close>

function sliding_windows :: "nat \<Rightarrow> nat \<Rightarrow> 'a list \<Rightarrow> 'a list list" where
  "sliding_windows C V s =
     (if length s \<le> C \<or> C \<le> V then [s]
      else take C s # sliding_windows C V (drop (C - V) s))"
  by pat_completeness auto
termination
  by (relation "measure (\<lambda>(C, V, s). length s)") auto

declare sliding_windows.simps [simp del]

subsection \<open>Sample collaborators\<close>

text \<open>
  Concrete collaborators on which the model is evaluated: a file is the list of its
  pages, a page is its text, the vector of a text is its length, an empty batch of
  records is refused, the search returns the (at most four) stored texts nearest to the
  question in that measure, and the chain answers with the retrieved texts. \<open>failing_reader\<close> meets an unreadable file,
  \<open>failing_chain\<close> a provider that refuses the call.
\<close>

definition sample_services :: "(string list, string, nat) services" where
  "sample_services =
     \<lparr>pdf_reader = (\<lambda>f. Inr f),
      extract_text = (\<lambda>p. Inr p),
      embed = (\<lambda>t. Inr (length t)),
      refused =
        (\<lambda>batch. if batch = []
           then Some (ValueError ''Expected IDs to be a non-empty list, got []'') else None),
      similarity_search =
        (\<lambda>st q. Inr (map fst (take 4 (sort_key
           (\<lambda>r. if snd r < length q then length q - snd r else snd r - length q) st)))),
      chain = (\<lambda>docs q. Inr [(''output_text'', concat docs)])\<rparr>"

definition failing_reader :: "(string list, string, nat) services" where
  "failing_reader =
     sample_services\<lparr>pdf_reader := (\<lambda>f. Inl (Exception ''EOF marker not found''))\<rparr>"

definition failing_chain :: "(string list, string, nat) services" where
  "failing_chain = sample_services\<lparr>chain := (\<lambda>docs q. Inl (Exception ''quota exceeded''))\<rparr>"

definition sample_configure :: "string \<Rightarrow> exn + unit" where
  "sample_configure key = Inr ()"

definition sample_model :: "exn + unit" where
  "sample_model = Inr ()"

section \<open>Properties\<close>

subsection \<open>Chunking\<close>

text \<open>
  C6. \<^verbatim>\<open>get_text_chunks\<close> applied to the empty string returns an empty sequence of
  chunks: the scan reaches the separator \<^verbatim>\<open>""\<close>, \<^verbatim>\<open>list("")\<close> has no split, and nothing
  is merged.
\<close>

theorem get_text_chunks_empty: "get_text_chunks [] = []"
  by (simp add: get_text_chunks_def split_text_def default_separators_def
      split_text_rec.simps [of _ _ "[]"] choose_separator_def split_text_with_regex_def)

text \<open>A text without white space is cut character by character and merged into windows.\<close>

lemma not_contains: "c \<notin> set s \<Longrightarrow> \<not> contains (c # sep) s"
  by (induction s) auto

lemma dropWhile_none: "\<forall>x\<in>set xs. \<not> P x \<Longrightarrow> dropWhile P xs = xs"
  by (cases xs) auto

lemma strip_no_space: "\<forall>c\<in>set s. \<not> is_space c \<Longrightarrow> strip s = s"
  by (simp add: strip_def dropWhile_none)

lemma join_Cons: "join sep (d # ds) = (if ds = [] then d else d @ sep @ join sep ds)"
  by (cases ds) auto

lemma join_empty_separator: "join [] ds = concat ds"
  by (induction ds) (auto simp: join_Cons)

lemma concat_singletons: "concat (map (\<lambda>c. [c]) w) = w"
  by (induction w) auto

lemma flush_singletons:
  "\<forall>c\<in>set w. \<not> is_space c \<Longrightarrow> w \<noteq> [] \<Longrightarrow> flush_doc docs (map (\<lambda>c. [c]) w) [] = docs @ [w]"
  by (simp add: flush_doc_def join_docs_def join_empty_separator concat_singletons strip_no_space)

lemma pop_singletons:
  "length w \<le> C \<Longrightarrow> V < C \<Longrightarrow>
   pop_docs C V 0 1 (map (\<lambda>c. [c]) w) (int (length w))
     = (map (\<lambda>c. [c]) (drop (length w - V) w), int (length (drop (length w - V) w)))"
proof (induction w)
  case Nil
  then show ?case by simp
next
  case (Cons x w)
  show ?case
  proof (cases "V < Suc (length w)")
    case True
    then have "drop (Suc (length w) - V) (x # w) = drop (length w - V) w"
      by (simp add: Suc_diff_le drop_Cons')
    with True Cons show ?thesis by simp
  next
    case False
    with Cons.prems show ?thesis by simp
  qed
qed

lemma merge_step_singleton:
  assumes "V < C" "length w \<le> C" "\<forall>c\<in>set w. \<not> is_space c"
  shows "merge_step C V [] (docs, map (\<lambda>c. [c]) w, int (length w)) [x]
       = (if length w = C
          then (docs @ [w], map (\<lambda>c. [c]) (drop (C - V) w @ [x]), int (length (drop (C - V) w @ [x])))
          else (docs, map (\<lambda>c. [c]) (w @ [x]), int (length (w @ [x]))))"
proof (cases "length w = C")
  case True
  with assms have "w \<noteq> []" by auto
  with True assms show ?thesis
    using pop_singletons [of w C V]
    by (simp add: merge_step_def flush_singletons)
next
  case False
  with assms show ?thesis
    by (auto simp: merge_step_def)
qed

lemma merge_loop_singletons:
  assumes "V < C"
  shows "length w \<le> C \<Longrightarrow> \<forall>c\<in>set (w @ xs). \<not> is_space c \<Longrightarrow> w @ xs \<noteq> [] \<Longrightarrow>
     merge_loop C V [] (docs, map (\<lambda>c. [c]) w, int (length w)) (map (\<lambda>c. [c]) xs)
       = docs @ sliding_windows C V (w @ xs)"
proof (induction xs arbitrary: w docs)
  case Nil
  then show ?case
    using assms by (simp add: flush_singletons sliding_windows.simps [of C V w])
next
  case (Cons x xs)
  have ws: "\<forall>c\<in>set w. \<not> is_space c"
    using Cons.prems(2) by simp
  show ?case
  proof (cases "length w = C")
    case True
    let ?w' = "drop (C - V) w @ [x]"
    have len: "length ?w' \<le> C"
      using True assms by simp
    have sp: "\<forall>c\<in>set (?w' @ xs). \<not> is_space c"
      using Cons.prems(2) by (auto dest: in_set_dropD)
    have "merge_loop C V [] (docs, map (\<lambda>c. [c]) w, int (length w)) (map (\<lambda>c. [c]) (x # xs))
        = merge_loop C V [] (docs @ [w], map (\<lambda>c. [c]) ?w', int (length ?w')) (map (\<lambda>c. [c]) xs)"
      using merge_step_singleton [OF assms Cons.prems(1) ws, of docs x] True by simp
    also have "\<dots> = (docs @ [w]) @ sliding_windows C V (?w' @ xs)"
      by (rule Cons.IH [OF len sp]) simp
    also have "\<dots> = docs @ sliding_windows C V (w @ x # xs)"
      using True assms by (simp add: sliding_windows.simps [of C V "w @ x # xs"])
    finally show ?thesis .
  next
    case False
    let ?w' = "w @ [x]"
    have len: "length ?w' \<le> C"
      using False Cons.prems(1) by simp
    have sp: "\<forall>c\<in>set (?w' @ xs). \<not> is_space c"
      using Cons.prems(2) by auto
    have "merge_loop C V [] (docs, map (\<lambda>c. [c]) w, int (length w)) (map (\<lambda>c. [c]) (x # xs))
        = merge_loop C V [] (docs, map (\<lambda>c. [c]) ?w', int (length ?w')) (map (\<lambda>c. [c]) xs)"
      using merge_step_singleton [OF assms Cons.prems(1) ws, of docs x] False by simp
    also have "\<dots> = docs @ sliding_windows C V (?w' @ xs)"
      by (rule Cons.IH [OF len sp]) simp
    finally show ?thesis by simp
  qed
qed

lemma split_loop_short:
  "\<forall>s\<in>set ss. length s < C \<Longrightarrow>
   split_loop C V long good ss = (if good @ ss \<noteq> [] then merge_splits C V (good @ ss) [] else [])"
  by (induction ss arbitrary: good) auto

lemma is_space_NL: "is_space NL"
  by (simp add: is_space_def NL_def)

lemma is_space_blank: "is_space CHR '' ''"
  by (simp add: is_space_def)

lemma choose_separator_no_space:
  assumes "\<forall>c\<in>set s. \<not> is_space c"
  shows "choose_separator s default_separators = ([], [])"
proof -
  have "NL \<notin> set s" "CHR '' '' \<notin> set s"
    using assms is_space_NL is_space_blank by auto
  then show ?thesis
    by (simp add: choose_separator_def default_separators_def not_contains)
qed

lemma split_text_no_space:
  assumes "V < C" "1 < C" "\<forall>c\<in>set s. \<not> is_space c" "s \<noteq> []"
  shows "split_text C V s = sliding_windows C V s"
proof -
  have "split_text C V s = split_loop C V (\<lambda>p. [p]) [] (map (\<lambda>c. [c]) s)"
    by (simp add: split_text_def split_text_rec.simps [of C V s default_separators]
        choose_separator_no_space [OF assms(3)] split_text_with_regex_def)
  also have "\<dots> = merge_splits C V (map (\<lambda>c. [c]) s) []"
    using assms(2,4) by (simp add: split_loop_short)
  also have "\<dots> = sliding_windows C V s"
    using merge_loop_singletons [OF assms(1), of "[]" s "[]"] assms(3,4)
    by (simp add: merge_splits_def)
  finally show ?thesis .
qed

lemma sliding_windows_nth:
  "V < C \<Longrightarrow> i < length (sliding_windows C V s) \<Longrightarrow>
   sliding_windows C V s ! i = take C (drop (i * (C - V)) s)"
proof (induction C V s arbitrary: i rule: sliding_windows.induct)
  case (1 C V s)
  show ?case
  proof (cases "length s \<le> C")
    case True
    with "1.prems" show ?thesis
      by (simp add: sliding_windows.simps [of C V s])
  next
    case False
    show ?thesis
    proof (cases i)
      case 0
      with False "1.prems" show ?thesis
        by (simp add: sliding_windows.simps [of C V s])
    next
      case (Suc j)
      with False "1.prems" have "j < length (sliding_windows C V (drop (C - V) s))"
        by (simp add: sliding_windows.simps [of C V s])
      with False "1.prems" have "sliding_windows C V (drop (C - V) s) ! j
          = take C (drop (j * (C - V)) (drop (C - V) s))"
        by (intro "1.IH") auto
      with False "1.prems" Suc show ?thesis
        by (simp add: sliding_windows.simps [of C V s] add.commute)
    qed
  qed
qed

lemma sliding_windows_length:
  "V < C \<Longrightarrow> V < length s \<Longrightarrow>
   length (sliding_windows C V s) = (length s - V + (C - V) - 1) div (C - V)"
proof (induction C V s rule: sliding_windows.induct)
  case (1 C V s)
  show ?case
  proof (cases "length s \<le> C")
    case True
    with "1.prems" have "(length s - V + (C - V) - 1) div (C - V) = 1"
      by (intro div_nat_eqI) auto
    with True show ?thesis
      by (simp add: sliding_windows.simps [of C V s])
  next
    case False
    define D where "D = C - V"
    define a where "a = length (drop D s) - V + D - 1"
    have D: "0 < D"
      using "1.prems" by (simp add: D_def)
    from False "1.prems" have "length (sliding_windows C V (drop (C - V) s))
        = (length (drop (C - V) s) - V + (C - V) - 1) div (C - V)"
      by (intro "1.IH") auto
    then have rest: "length (sliding_windows C V (drop D s)) = a div D"
      by (simp add: D_def a_def)
    have e: "length s - V + D - 1 = a + D"
      using False "1.prems" by (simp add: D_def a_def)
    have "(a + D) div D = Suc (a div D)"
      using D by (simp add: div_add_self2)
    with e have cnt: "(length s - V + D - 1) div D = Suc (a div D)"
      by (simp only:)
    have step: "length (sliding_windows C V s) = Suc (length (sliding_windows C V (drop D s)))"
      using False "1.prems" by (simp add: sliding_windows.simps [of C V s] D_def)
    from step rest cnt have "length (sliding_windows C V s) = (length s - V + D - 1) div D"
      by (simp only:)
    then show ?thesis
      by (simp only: D_def)
  qed
qed

lemma sliding_windows_overlap:
  assumes "V < C" "V < length s" "i + 1 < length (sliding_windows C V s)"
  shows "sliding_windows C V s ! i = take C (drop (i * (C - V)) s)
       \<and> length (sliding_windows C V s ! i) = C
       \<and> drop (C - V) (sliding_windows C V s ! i) = take V (sliding_windows C V s ! (i + 1))"
proof -
  define D where "D = C - V"
  define m where "m = i * D"
  have D: "0 < D" "C = D + V"
    using assms(1) by (simp_all add: D_def)
  have "Suc (Suc i) \<le> (length s - V + D - 1) div D"
    using assms(3) sliding_windows_length [OF assms(1,2)] by (simp add: D_def)
  then have "Suc (Suc i) * D \<le> length s - V + D - 1"
    using D(1) by (simp add: less_eq_div_iff_mult_less_eq)
  then have "m + D + D \<le> length s - V + D - 1"
    by (simp add: m_def algebra_simps)
  then have room: "m + C < length s"
    using D assms(2) by simp
  have this_one: "sliding_windows C V s ! i = take C (drop m s)"
    using sliding_windows_nth [OF assms(1), of i s] assms(3) by (simp add: m_def D_def)
  have idx: "(i + 1) * (C - V) = m + D"
    by (simp add: m_def D_def)
  have next_one: "sliding_windows C V s ! (i + 1) = take C (drop (m + D) s)"
    using sliding_windows_nth [OF assms(1), of "i + 1" s] assms(3)
    by (simp only: idx)
  have "length (take C (drop m s)) = C"
    using room by simp
  moreover have "drop D (take C (drop m s)) = take V (take C (drop (m + D) s))"
    using D by (simp add: drop_take add.commute min_def)
  ultimately show ?thesis
    using this_one next_one by (simp add: D_def m_def)
qed

lemma contains_separator: "contains (c # sep) (xs @ (c # sep) @ ys)"
  by (induction xs) auto

lemma re_split_no_separator: "c \<notin> set s \<Longrightarrow> re_split (c # sep) piece s = [piece @ s]"
  by (induction s arbitrary: piece) auto

lemma re_split_first:
  "c \<notin> set xs \<Longrightarrow>
   re_split (c # sep) piece (xs @ (c # sep) @ ys) = (piece @ xs) # re_split (c # sep) [] ys"
  by (induction xs arbitrary: piece) auto

lemma strip_leading: "is_space c \<Longrightarrow> strip (c # s) = strip s"
  by (simp add: strip_def)

lemma paragraph_break_split:
  assumes "\<forall>c\<in>set xs. \<not> is_space c" "\<forall>c\<in>set ys. \<not> is_space c"
      and "xs \<noteq> []" "ys \<noteq> []"
      and "length xs < C" "length ys + 2 < C" "C < length xs + length ys + 2"
  shows "split_text C V (xs @ [NL, NL] @ ys) = [xs, ys]"
proof -
  let ?s = "xs @ NL # NL # ys"
  have nl: "NL \<notin> set xs" "NL \<notin> set ys"
    using assms(1,2) is_space_NL by auto
  have sep: "choose_separator ?s default_separators = ([NL, NL], [[NL], '' '', []])"
    using contains_separator [of NL "[NL]" xs ys]
    by (simp add: choose_separator_def default_separators_def)
  have "re_split [NL, NL] [] ?s = [xs, ys]"
    using re_split_first [OF nl(1), of "[NL]" "[]" ys] re_split_no_separator [OF nl(2), of "[NL]" "[]"]
    by simp
  then have splits: "split_text_with_regex ?s [NL, NL] = [xs, NL # NL # ys]"
    using assms(3) by (simp add: split_text_with_regex_def)
  have "split_text_rec C V ?s default_separators = merge_splits C V [xs, NL # NL # ys] []"
    using assms(5,6)
    by (subst split_text_rec.simps) (simp add: sep splits split_loop_short)
  also have "\<dots> = [xs, ys]"
    using assms
    by (simp add: merge_splits_def merge_step_def flush_doc_def join_docs_def
        strip_no_space strip_leading is_space_NL)
  finally show ?thesis
    by (simp add: split_text_def)
qed

lemma short_text_one_chunk:
  assumes "s \<noteq> []" "length s \<le> 10000" "\<forall>c\<in>set s. \<not> is_space c"
  shows "get_text_chunks s = [s]"
  using split_text_no_space [of 1000 10000 s] assms
  by (simp add: get_text_chunks_def sliding_windows.simps [of 10000 1000 s])

text \<open>
  The running total of \<^verbatim>\<open>_merge_splits\<close> is the length of the joined
  \<^verbatim>\<open>current_doc\<close>: the \<^verbatim>\<open>while\<close> loop never reads \<^verbatim>\<open>current_doc[0]\<close> of an empty list.
\<close>

lemma join_snoc:
  "length (join sep (cur @ [d]))
     = length (join sep cur) + length d + (if cur \<noteq> [] then length sep else 0)"
  by (induction cur) (auto simp: join_Cons)

lemma pop_docs_total:
  "tot = int (length (join sep cur)) \<Longrightarrow>
   snd (pop_docs C V (int (length sep)) len cur tot)
     = int (length (join sep (fst (pop_docs C V (int (length sep)) len cur tot))))"
proof (induction cur arbitrary: tot)
  case Nil
  then show ?case by simp
next
  case (Cons d ds)
  have "tot - (int (length d) + (if ds \<noteq> [] then int (length sep) else 0))
      = int (length (join sep ds))"
    using Cons.prems by (simp add: join_Cons)
  from Cons.IH [OF this] Cons.prems show ?case
    by (simp del: join.simps)
qed

lemma popped_total:
  assumes "tot = int (length (join sep cur))"
  shows "snd (if b then pop_docs C V (int (length sep)) (int (length d)) cur tot else (cur, tot)) =
     int (length (join sep (fst (if b then pop_docs C V (int (length sep)) (int (length d)) cur tot else (cur, tot)))))"
  using pop_docs_total [OF assms, of C V "int (length d)"] assms
  by (cases b) simp_all

lemma merge_step_unfold:
  "snd (merge_step C V sep (docs, cur, tot) d)
      = (fst (if tot + int (length d) + (if cur \<noteq> [] then int (length sep) else 0) > int C \<and> cur \<noteq> []
     then pop_docs C V (int (length sep)) (int (length d)) cur tot else (cur, tot)) @ [d],
         snd (if tot + int (length d) + (if cur \<noteq> [] then int (length sep) else 0) > int C \<and> cur \<noteq> []
     then pop_docs C V (int (length sep)) (int (length d)) cur tot else (cur, tot)) + int (length d) 
       + (if length (fst (if tot + int (length d) + (if cur \<noteq> [] then int (length sep) else 0) > int C \<and> cur \<noteq> []
     then pop_docs C V (int (length sep)) (int (length d)) cur tot else (cur, tot)) @ [d]) > 1 then int (length sep) else 0))"
  unfolding merge_step_def Let_def prod.case
  by (simp only: if_distrib [of snd] if_distrib [of fst] snd_conv fst_conv)

lemma merge_step_total:
  assumes "tot = int (length (join sep cur))"
  shows "snd (snd (merge_step C V sep (docs, cur, tot) d))
       = int (length (join sep (fst (snd (merge_step C V sep (docs, cur, tot) d)))))"
proof -
  define p where "p =
    (if tot + int (length d) + (if cur \<noteq> [] then int (length sep) else 0) > int C \<and> cur \<noteq> []
     then pop_docs C V (int (length sep)) (int (length d)) cur tot else (cur, tot))"
  obtain pc pt where p: "p = (pc, pt)"
    by (cases p)
  have "snd p = int (length (join sep (fst p)))"
    unfolding p_def by (rule popped_total [OF assms])
  then have inv: "pt = int (length (join sep pc))"
    by (simp add: p)
  have "snd (merge_step C V sep (docs, cur, tot) d)
      = (fst p @ [d],
         snd p + int (length d) + (if length (fst p @ [d]) > 1 then int (length sep) else 0))"
    unfolding p_def by (rule merge_step_unfold)
  then have "snd (merge_step C V sep (docs, cur, tot) d)
      = (pc @ [d], pt + int (length d) + (if pc \<noteq> [] then int (length sep) else 0))"
    by (simp add: p)
  then show ?thesis
    by (simp add: inv join_snoc)
qed

text \<open>
  C2, as stated, fails: the splitter cuts at paragraph breaks first. A text of 12002
  characters, two runs of 6000 letters with an empty line between them, gives two chunks
  of 6000 characters that share nothing, although the first is not the last.
\<close>

theorem paragraph_break_counterexample:
  "length (replicate 6000 CHR ''a'' @ [NL, NL] @ replicate 6000 CHR ''b'') = 12002
   \<and> get_text_chunks (replicate 6000 CHR ''a'' @ [NL, NL] @ replicate 6000 CHR ''b'')
       = [replicate 6000 CHR ''a'', replicate 6000 CHR ''b'']"
proof -
  have sp: "\<forall>c\<in>set (replicate 6000 CHR ''a''). \<not> is_space c"
    "\<forall>c\<in>set (replicate 6000 CHR ''b''). \<not> is_space c"
    by (simp_all add: is_space_def)
  have ne: "replicate 6000 CHR ''a'' \<noteq> []" "replicate 6000 CHR ''b'' \<noteq> []"
    by simp_all
  have len: "length (replicate 6000 CHR ''a'') < 10000"
    "length (replicate 6000 CHR ''b'') + 2 < 10000"
    "10000 < length (replicate 6000 CHR ''a'') + length (replicate 6000 CHR ''b'') + 2"
    by simp_all
  have "split_text 10000 1000 (replicate 6000 CHR ''a'' @ [NL, NL] @ replicate 6000 CHR ''b'')
      = [replicate 6000 CHR ''a'', replicate 6000 CHR ''b'']"
    by (rule paragraph_break_split [OF sp ne len])
  then show ?thesis
    by (simp only: get_text_chunks_def length_append length_replicate list.size) simp
qed

text \<open>
  C2, amended. For every input string of length L greater than the chunk length 10000
  that contains no white space, \<^verbatim>\<open>get_text_chunks\<close> produces the windows of the
  specification: chunk \<open>i\<close> is the substring of 10000 characters from position
  \<open>9000 * i\<close>, every chunk except possibly the last has exactly length 10000,
  consecutive chunks share exactly the 1000 trailing/leading characters, and the number of
  chunks is \<open>ceil((L - 1000) / 9000)\<close>. (On other texts the split points follow the
  paragraph breaks, line breaks and blanks.)
\<close>

theorem get_text_chunks_no_space:
  assumes "10000 < length s" and "\<forall>c\<in>set s. \<not> is_space c"
  shows "get_text_chunks s = sliding_windows 10000 1000 s
       \<and> length (get_text_chunks s) = (length s - 1000 + 8999) div 9000
       \<and> (\<forall>i. i + 1 < length (get_text_chunks s) \<longrightarrow>
             get_text_chunks s ! i = take 10000 (drop (i * 9000) s)
             \<and> length (get_text_chunks s ! i) = 10000
             \<and> drop 9000 (get_text_chunks s ! i) = take 1000 (get_text_chunks s ! (i + 1)))"
proof -
  have nums: "(1000::nat) < 10000" "(10000::nat) - 1000 = 9000" "1 < (10000::nat)"
    by simp_all
  have s: "s \<noteq> []" "1000 < length s"
    using assms(1) by auto
  have eq: "get_text_chunks s = sliding_windows 10000 1000 s"
    unfolding get_text_chunks_def
    by (rule split_text_no_space [OF nums(1) nums(3) assms(2) s(1)])
  have len: "length (sliding_windows 10000 1000 s) = (length s - 1000 + 8999) div 9000"
    using sliding_windows_length [OF nums(1) s(2)] by simp
  have "sliding_windows 10000 1000 s ! i = take 10000 (drop (i * 9000) s)
        \<and> length (sliding_windows 10000 1000 s ! i) = 10000
        \<and> drop 9000 (sliding_windows 10000 1000 s ! i)
            = take 1000 (sliding_windows 10000 1000 s ! (i + 1))"
    if "i + 1 < length (sliding_windows 10000 1000 s)" for i
  proof -
    note sliding_windows_overlap [OF nums(1) s(2) that]
    then show ?thesis
      unfolding nums(2) .
  qed
  with len show ?thesis
    unfolding eq by blast
qed

theorem get_text_chunks_no_space_witness:
  "length (get_text_chunks (replicate 10001 CHR ''a'')) = 2
   \<and> get_text_chunks (replicate 10001 CHR ''a'') ! 0 = replicate 10000 CHR ''a''
   \<and> drop 9000 (get_text_chunks (replicate 10001 CHR ''a'') ! 0)
       = take 1000 (get_text_chunks (replicate 10001 CHR ''a'') ! 1)"
proof -
  have h: "10000 < length (replicate 10001 CHR ''a'')"
    "\<forall>c\<in>set (replicate 10001 CHR ''a''). \<not> is_space c"
    by (simp_all add: is_space_def)
  note t = get_text_chunks_no_space [OF h]
  have n: "length (get_text_chunks (replicate 10001 CHR ''a'')) = 2"
    using t [THEN conjunct2, THEN conjunct1] by simp
  then have "0 + 1 < length (get_text_chunks (replicate 10001 CHR ''a''))"
    by simp
  note w = t [THEN conjunct2, THEN conjunct2, THEN spec, THEN mp, OF this]
  have first: "get_text_chunks (replicate 10001 CHR ''a'') ! 0 = replicate 10000 CHR ''a''"
    using w [THEN conjunct1] by simp
  have shared: "drop 9000 (get_text_chunks (replicate 10001 CHR ''a'') ! 0)
       = take 1000 (get_text_chunks (replicate 10001 CHR ''a'') ! 1)"
    using w [THEN conjunct2, THEN conjunct2] by simp
  from n first shared show ?thesis
    by blast
qed

subsection \<open>The root route\<close>

text \<open>
  C9. \<^verbatim>\<open>GET /\<close> returns status 200 with the JSON body
  \<^verbatim>\<open>{"message": "Welcome to the Ask Docs API!"}\<close>: the function takes no argument and
  returns that dictionary, which FastAPI serialises under its default status.
\<close>

theorem read_root_response:
  "get_root =
     \<lparr>status_code = 200,
      content = JDict [(''message'', JStr ''Welcome to the Ask Docs API!'')]\<rparr>"
  by (simp add: get_root_def read_root_def)

subsection \<open>The credential check at start-up\<close>

text \<open>
  C7, as stated, fails: a \<^verbatim>\<open>GOOGLE_API_KEY\<close> that is present with the empty string as its
  value is falsy, so the module raises the same \<^verbatim>\<open>ValueError\<close> as for an absent one.
\<close>

theorem empty_credential_counterexample:
  "getenv (load_dotenv Map.empty [''GOOGLE_API_KEY'' \<mapsto> '''']) ''GOOGLE_API_KEY'' = Some ''''
   \<and> module_init sample_configure sample_model Map.empty [''GOOGLE_API_KEY'' \<mapsto> '''']
       = Inl (ValueError ''GOOGLE_API_KEY not found in environment variables'')"
  by (simp add: module_init_def getenv_def load_dotenv_def)

text \<open>
  C7, amended. If \<^verbatim>\<open>GOOGLE_API_KEY\<close> is absent from the environment (after
  \<^verbatim>\<open>load_dotenv\<close>) or is the empty string, module initialisation raises
  \<^verbatim>\<open>ValueError\<close> and no endpoint becomes reachable; if it is present and not empty,
  initialisation proceeds past the credential check with that key.
\<close>

theorem credential_check:
  "(getenv (load_dotenv dotenv env) ''GOOGLE_API_KEY'' = None
      \<or> getenv (load_dotenv dotenv env) ''GOOGLE_API_KEY'' = Some [] \<longrightarrow>
      module_init configure load_model dotenv env
        = Inl (ValueError ''GOOGLE_API_KEY not found in environment variables'')
      \<and> endpoints (module_init configure load_model dotenv env) = [])
   \<and> (getenv (load_dotenv dotenv env) ''GOOGLE_API_KEY'' = Some key \<and> key \<noteq> [] \<longrightarrow>
      module_init configure load_model dotenv env
        = after_credential_check configure load_model key)"
  by (auto simp: module_init_def)

theorem credential_check_witness:
  "module_init sample_configure sample_model Map.empty Map.empty
     = Inl (ValueError ''GOOGLE_API_KEY not found in environment variables'')
   \<and> endpoints (module_init sample_configure sample_model Map.empty Map.empty) = []
   \<and> endpoints (module_init sample_configure sample_model [''GOOGLE_API_KEY'' \<mapsto> ''k'']
         Map.empty)
       = [(''GET'', ''/''), (''POST'', ''/ask_question/'')]"
  using credential_check [of Map.empty Map.empty sample_configure sample_model "''k''"]
    credential_check
      [of "[''GOOGLE_API_KEY'' \<mapsto> ''k'']" Map.empty sample_configure sample_model "''k''"]
  by (simp add: getenv_def load_dotenv_def after_credential_check_def sample_configure_def
      sample_model_def)

subsection \<open>Text extraction\<close>

lemma pages_loop_concat:
  "map ex pages = map Inr ts \<Longrightarrow> pages_loop ex acc pages = Inr (acc @ concat ts)"
proof (induction pages arbitrary: acc ts)
  case Nil
  then show ?case by simp
next
  case (Cons page pages)
  then obtain t ts' where ts: "ts = t # ts'" "ex page = Inr t" "map ex pages = map Inr ts'"
    by (cases ts) auto
  with Cons.IH [of ts' "acc @ t"] show ?case by simp
qed

lemma docs_loop_concat:
  "map rd pdfs = map Inr pagess \<Longrightarrow> map ex (concat pagess) = map Inr texts \<Longrightarrow>
   docs_loop rd ex acc pdfs = Inr (acc @ concat texts)"
proof (induction pdfs arbitrary: acc pagess texts)
  case Nil
  then show ?case by simp
next
  case (Cons pdf pdfs)
  from Cons.prems(1) obtain pages rest where
    ps: "pagess = pages # rest" "rd pdf = Inr pages" "map rd pdfs = map Inr rest"
    by (cases pagess) auto
  let ?n = "length pages"
  from Cons.prems(2) ps(1)
  have "length (map ex (pages @ concat rest)) = length (map Inr texts :: (exn + string) list)"
    by simp
  then have n: "?n \<le> length texts"
    by simp
  from Cons.prems(2) ps(1)
  have "map ex pages @ map ex (concat rest)
      = map Inr (take ?n texts) @ map Inr (drop ?n texts)"
    by (simp flip: map_append)
  with n have first: "map ex pages = map Inr (take ?n texts)"
    and later: "map ex (concat rest) = map Inr (drop ?n texts)"
    by (simp_all add: append_eq_append_conv del: map_append)
  have "pages_loop ex acc pages = Inr (acc @ concat (take ?n texts))"
    by (rule pages_loop_concat [OF first])
  moreover have "docs_loop rd ex (acc @ concat (take ?n texts)) pdfs
      = Inr ((acc @ concat (take ?n texts)) @ concat (drop ?n texts))"
    by (rule Cons.IH [OF ps(3) later])
  moreover have "concat (take ?n texts) @ concat (drop ?n texts) = concat texts"
    by (simp flip: concat_append)
  ultimately show ?case using ps(2) by simp
qed

lemma map_Inr_subseq:
  assumes "subseq ps ps'" "map f ps = map Inr ts" "map f ps' = map Inr ts'"
  shows "subseq ts ts'"
proof -
  have "ts = map (\<lambda>p. projr (f p)) ps"
    using assms(2) by (induction ps arbitrary: ts) auto
  moreover have "ts' = map (\<lambda>p. projr (f p)) ps'"
    using assms(3) by (induction ps' arbitrary: ts') auto
  ultimately show ?thesis using assms(1) by (simp add: subseq_map)
qed

lemma subseq_concat_length: "subseq xs ys \<Longrightarrow> length (concat xs) \<le> length (concat ys)"
  by (induction rule: list_emb.induct) auto

text \<open>
  C5. When every file is read and every page extracted (the pages of the files are
  \<open>pagess\<close>, their extracted texts \<open>texts\<close>), \<^verbatim>\<open>get_pdf_text\<close> returns the concatenation
  of the page texts in file order and page order; a page whose text is empty adds
  nothing. When a second list of files has the pages of the first and more (the first
  page sequence is a subsequence of the second), its output is at least as long.
\<close>

theorem get_pdf_text_concat:
  assumes "map (pdf_reader sv) pdf_docs = map Inr pagess"
      and "map (extract_text sv) (concat pagess) = map Inr texts"
      and "map (pdf_reader sv) pdf_docs' = map Inr pagess'"
      and "map (extract_text sv) (concat pagess') = map Inr texts'"
      and "subseq (concat pagess) (concat pagess')"
  shows "get_pdf_text sv pdf_docs = Inr (concat texts)
       \<and> get_pdf_text sv pdf_docs' = Inr (concat texts')
       \<and> length (concat texts) \<le> length (concat texts')"
proof -
  have "subseq texts texts'"
    by (rule map_Inr_subseq [OF assms(5) assms(2) assms(4)])
  then have "length (concat texts) \<le> length (concat texts')"
    by (rule subseq_concat_length)
  moreover have "get_pdf_text sv pdf_docs = Inr (concat texts)"
    using docs_loop_concat [OF assms(1) assms(2), of "[]"] by (simp add: get_pdf_text_def)
  moreover have "get_pdf_text sv pdf_docs' = Inr (concat texts')"
    using docs_loop_concat [OF assms(3) assms(4), of "[]"] by (simp add: get_pdf_text_def)
  ultimately show ?thesis by simp
qed

theorem get_pdf_text_concat_witness:
  "get_pdf_text sample_services [[''The capital'', ''''], ['' of France'']]
     = Inr ''The capital of France''
   \<and> get_pdf_text sample_services [[''The capital'', '''', '' is''], ['' of France'']]
     = Inr ''The capital is of France''"
  using get_pdf_text_concat
    [of sample_services "[[''The capital'', ''''], ['' of France'']]"
        "[[''The capital'', ''''], ['' of France'']]"
        "[''The capital'', '''', '' of France'']"
        "[[''The capital'', '''', '' is''], ['' of France'']]"
        "[[''The capital'', '''', '' is''], ['' of France'']]"
        "[''The capital'', '''', '' is'', '' of France'']"]
  by (simp add: sample_services_def)

subsection \<open>The index\<close>

lemma embed_documents_length:
  "embed_documents em ts = Inr vs \<Longrightarrow> length vs = length ts"
  by (induction ts arbitrary: vs) (auto split: sum.splits)

lemma get_vector_store_appends:
  "get_vector_store sv st chunks = Inr st' \<Longrightarrow>
   take (length st) st' = st \<and> map fst st' = map fst st @ chunks"
  by (auto simp: get_vector_store_def split: sum.splits option.splits
      dest: embed_documents_length)

text \<open>
  C1, as stated, fails: indexing \<open>alpha\<close> and then \<open>beta\<close> leaves both pairs in the
  collection, and the retrieval that follows returns \<open>alpha\<close>, a text of the first call.
\<close>

theorem rebuild_counterexample:
  "get_vector_store sample_services [] [''alpha''] = Inr [(''alpha'', 5)]
   \<and> get_vector_store sample_services [(''alpha'', 5)] [''beta'']
       = Inr [(''alpha'', 5), (''beta'', 4)]
   \<and> similarity_search sample_services [(''alpha'', 5), (''beta'', 4)] ''alpha''
       = Inr [''alpha'', ''beta'']"
  by (simp add: get_vector_store_def sample_services_def)

text \<open>
  C1, amended. Indexing adds to the collection at the fixed path: for two successive
  calls of the indexing stage, on chunk set A and then on chunk set B, the pairs already
  present are kept and the new ones are appended, so after any request the persisted
  index holds the chunks of every request indexed so far, and a retrieval after B
  searches the texts of A and of B alike.
\<close>

theorem get_vector_store_accumulates:
  assumes "get_vector_store sv st A = Inr st1"
      and "get_vector_store sv st1 B = Inr st2"
  shows "take (length st) st1 = st \<and> take (length st1) st2 = st1
       \<and> map fst st1 = map fst st @ A
       \<and> map fst st2 = map fst st @ A @ B"
  using get_vector_store_appends [OF assms(1)] get_vector_store_appends [OF assms(2)]
  by simp

theorem get_vector_store_accumulates_witness:
  "take (length [(''old'', 3::nat)]) [(''old'', 3), (''alpha'', 5)] = [(''old'', 3)]
   \<and> map fst [(''old'', 3::nat), (''alpha'', 5), (''beta'', 4)]
       = map fst [(''old'', 3::nat)] @ [''alpha''] @ [''beta'']"
  using get_vector_store_accumulates
     [of sample_services "[(''old'', 3)]" "[''alpha'']" "[(''old'', 3), (''alpha'', 5)]"
         "[''beta'']" "[(''old'', 3), (''alpha'', 5), (''beta'', 4)]"]
  by (simp add: get_vector_store_def sample_services_def)

subsection \<open>The question route\<close>

text \<open>
  C3. Whatever stage of the pipeline raises (extraction, indexing, retrieval, the chain,
  or the lookup of \<^verbatim>\<open>output_text\<close> in its result; chunking raises nothing), the endpoint
  answers with status 400 and the body
  \<^verbatim>\<open>{"detail": "Error processing question: <message>"}\<close>, the message being \<^verbatim>\<open>str(e)\<close>.
\<close>

theorem ask_question_error_response:
  assumes "get_pdf_text sv pdf_files = Inl e
     \<or> (\<exists>raw. get_pdf_text sv pdf_files = Inr raw
          \<and> (get_vector_store sv st (get_text_chunks raw) = Inl e
             \<or> (\<exists>st'. get_vector_store sv st (get_text_chunks raw) = Inr st'
                  \<and> (similarity_search sv st' q = Inl e
                     \<or> (\<exists>docs. similarity_search sv st' q = Inr docs
                          \<and> (chain sv docs q = Inl e
                             \<or> (\<exists>resp. chain sv docs q = Inr resp
                                  \<and> map_of resp ''output_text'' = None
                                  \<and> e = KeyError ''output_text'')))))))"
  shows "serialize_response (fst (ask_question sv st q pdf_files))
       = \<lparr>status_code = 400,
          content = JDict [(''detail'', JStr (''Error processing question: '' @ str e))]\<rparr>"
  using assms by (auto simp: ask_question_def ask_question_body_def)

theorem ask_question_error_response_witness:
  "serialize_response (fst (ask_question failing_reader [] ''Who?'' [[''page'']]))
     = \<lparr>status_code = 400,
        content = JDict [(''detail'', JStr ''Error processing question: EOF marker not found'')]\<rparr>"
  using ask_question_error_response
          [of failing_reader "[[''page'']]" "Exception ''EOF marker not found''" "[]" "''Who?''"]
  by (simp add: failing_reader_def sample_services_def get_pdf_text_def)

text \<open>
  C10. When \<^verbatim>\<open>get_vector_store\<close> has completed and a later stage raises (the
  retrieval, the chain, or the lookup of \<^verbatim>\<open>output_text\<close>), the endpoint answers with
  the status 400 error and the store is the one \<^verbatim>\<open>get_vector_store\<close> left: the chunks
  of the request are in the index, after what was there before.
\<close>

theorem no_rollback:
  assumes "get_pdf_text sv pdf_files = Inr raw"
      and "get_vector_store sv st (get_text_chunks raw) = Inr st'"
      and "similarity_search sv st' q = Inl e
         \<or> (\<exists>docs. similarity_search sv st' q = Inr docs
              \<and> (chain sv docs q = Inl e
                 \<or> (\<exists>resp. chain sv docs q = Inr resp
                      \<and> map_of resp ''output_text'' = None
                      \<and> e = KeyError ''output_text'')))"
  shows "ask_question sv st q pdf_files
           = (HTTPException 400 (''Error processing question: '' @ str e), st')
       \<and> serialize_response (fst (ask_question sv st q pdf_files))
           = \<lparr>status_code = 400,
              content = JDict [(''detail'', JStr (''Error processing question: '' @ str e))]\<rparr>
       \<and> map fst st' = map fst st @ get_text_chunks raw"
  using assms get_vector_store_appends [of sv st "get_text_chunks raw" st']
  by (auto simp: ask_question_def ask_question_body_def)

theorem no_rollback_witness:
  "ask_question failing_chain [] ''Where?'' [[''Paris'']]
     = (HTTPException 400 ''Error processing question: quota exceeded'', [(''Paris'', 5)])"
proof -
  have chunks: "get_text_chunks ''Paris'' = [''Paris'']"
    by (rule short_text_one_chunk) (simp_all add: is_space_def)
  have extracted: "get_pdf_text failing_chain [[''Paris'']] = Inr ''Paris''"
    by (simp add: get_pdf_text_def failing_chain_def sample_services_def)
  have indexed: "get_vector_store failing_chain [] (get_text_chunks ''Paris'')
      = Inr [(''Paris'', 5)]"
    by (simp add: chunks get_vector_store_def failing_chain_def sample_services_def)
  have raised: "similarity_search failing_chain [(''Paris'', 5)] ''Where?''
        = Inl (Exception ''quota exceeded'')
      \<or> (\<exists>docs. similarity_search failing_chain [(''Paris'', 5)] ''Where?'' = Inr docs
            \<and> (chain failing_chain docs ''Where?'' = Inl (Exception ''quota exceeded'')
               \<or> (\<exists>resp. chain failing_chain docs ''Where?'' = Inr resp
                    \<and> map_of resp ''output_text'' = None
                    \<and> Exception ''quota exceeded'' = KeyError ''output_text'')))"
    by (simp add: failing_chain_def sample_services_def)
  from no_rollback [OF extracted indexed raised, THEN conjunct1] show ?thesis
    by simp
qed

text \<open>
  C4, as stated, fails: a form with \<^verbatim>\<open>user_question\<close> and no \<^verbatim>\<open>pdf_files\<close> part is
  answered with status 422, not 400.
\<close>

theorem missing_pdf_files_counterexample:
  "post_ask_question sample_services []
     \<lparr>text_parts = [(''user_question'', ''Who?'')], file_parts = []\<rparr>
     = (\<lparr>status_code = 422,
         content = JDict [(''detail'',
                     JList [JDict [(''loc'', JList [JStr ''body'', JStr ''pdf_files''])]])]\<rparr>,
        [])"
  by (simp add: post_ask_question_def missing_error_def)

text \<open>
  C4, amended. A call to \<^verbatim>\<open>POST /ask_question/\<close> whose multipart form contains no
  \<^verbatim>\<open>pdf_files\<close> part is rejected before the function runs: the answer has status 422
  and a JSON body with a \<^verbatim>\<open>detail\<close> field that lists the missing parameter, and the
  index is left as it was.
\<close>

theorem missing_pdf_files_rejected:
  assumes "filter (\<lambda>part. fst part = ''pdf_files'') (file_parts form) = []"
  shows "status_code (fst (post_ask_question sv st form)) = 422
       \<and> (\<exists>errors. content (fst (post_ask_question sv st form))
                      = JDict [(''detail'', JList errors)]
             \<and> missing_error ''pdf_files'' \<in> set errors)
       \<and> snd (post_ask_question sv st form) = st"
  using assms by (auto simp: post_ask_question_def split: option.splits)

theorem missing_pdf_files_rejected_witness:
  "status_code (fst (post_ask_question sample_services []
     \<lparr>text_parts = [], file_parts = [(''attachment'', [''page''])]\<rparr>)) = 422"
  using missing_pdf_files_rejected
    [of "\<lparr>text_parts = [], file_parts = [(''attachment'', [''page''])]\<rparr>" sample_services "[]"]
  by simp

end
